theory Spec2Isabelle
  imports Main
begin

section \<open>The GSM/SIP audio bridge (audio\_bridge.c)\<close>

text \<open>
  A shallow embedding of \<^verbatim>\<open>android/app/src/main/jni/audio_bridge.c\<close>. The file
  keeps a static array \<^verbatim>\<open>bridges[MAX_SIMS]\<close> of per-slot records and offers four
  entry points (\<^verbatim>\<open>audio_bridge_init\<close>, \<^verbatim>\<open>audio_bridge_start\<close>,
  \<^verbatim>\<open>audio_bridge_stop\<close>, \<^verbatim>\<open>audio_bridge_destroy\<close>). Its only effects beyond the
  array are calls into the platform: \<^verbatim>\<open>system()\<close> for each root command,
  \<^verbatim>\<open>pjmedia_endpt_create_pool\<close> and \<^verbatim>\<open>pj_pool_release\<close>. These calls are kept in
  a trace, in the order in which the code makes them; what the platform answers is a
  parameter of the model. Log output (\<^verbatim>\<open>LOGI\<close>, \<^verbatim>\<open>LOGE\<close>, \<^verbatim>\<open>PJ_LOG\<close>) is not
  modelled.
\<close>

subsection \<open>Data model\<close>

text \<open>Pointers are addresses; the null pointer is address 0.\<close>

type_synonym ptr = nat

abbreviation NULL :: ptr where
  "NULL \<equiv> 0"

text \<open>
  The four \<^verbatim>\<open>pj_status_t\<close> values the file returns. Their numeric values belong to
  pjlib; the code only compares them with each other.
\<close>

datatype pj_status = PJ_SUCCESS | PJ_EUNKNOWN | PJ_EINVAL | PJ_ENOMEM

text \<open>\<^verbatim>\<open>#define MAX_SIMS 2\<close>\<close>

definition MAX_SIMS :: int where
  "MAX_SIMS = 2"

text \<open>
  \<^verbatim>\<open>typedef struct { pj_bool_t active; int slot; pjmedia_endpt *med_endpt;
  pj_pool_t *pool; } audio_bridge_state;\<close>
  The field \<^verbatim>\<open>active\<close> only ever holds \<^verbatim>\<open>PJ_FALSE\<close> (from zeroing) or
  \<^verbatim>\<open>PJ_TRUE\<close>, so it is a \<open>bool\<close>.
\<close>

record audio_bridge_state =
  active :: bool
  slot :: int
  med_endpt :: ptr
  pool :: ptr

text \<open>What \<^verbatim>\<open>pj_bzero(bridge, sizeof(*bridge))\<close> leaves in a record.\<close>

definition zeroed :: audio_bridge_state where
  "zeroed = \<lparr>active = False, slot = 0, med_endpt = NULL, pool = NULL\<rparr>"

text \<open>The calls the code makes into the platform, with their arguments.\<close>

datatype event =
    System string        \<comment> \<open>\<^verbatim>\<open>system(full_cmd)\<close>\<close>
  | Create_pool ptr ptr  \<comment> \<open>\<^verbatim>\<open>pjmedia_endpt_create_pool(med_endpt, ...)\<close> and what it returned\<close>
  | Release_pool ptr     \<comment> \<open>\<^verbatim>\<open>pj_pool_release(pool)\<close>\<close>

text \<open>
  The platform's answers: the exit status of \<^verbatim>\<open>system\<close> and the pool returned by
  \<^verbatim>\<open>pjmedia_endpt_create_pool\<close>, each as a function of the calls made so far and of
  the call's argument.
\<close>

record platform =
  system_ret :: "event list \<Rightarrow> string \<Rightarrow> int"
  create_pool_ret :: "event list \<Rightarrow> ptr \<Rightarrow> ptr"

text \<open>The program state: the static array and the trace of platform calls.\<close>

record state =
  bridges :: "audio_bridge_state list"
  trace :: "event list"

text \<open>The array has \<^verbatim>\<open>MAX_SIMS\<close> elements.\<close>

definition wf_state :: "state \<Rightarrow> bool" where
  "wf_state s \<longleftrightarrow> length (bridges s) = nat MAX_SIMS"

text \<open>Static storage is zero-initialised.\<close>

definition initial_state :: state where
  "initial_state = \<lparr>bridges = replicate (nat MAX_SIMS) zeroed, trace = []\<rparr>"

text \<open>Reading and writing \<^verbatim>\<open>bridges[slot]\<close> for a slot the caller has range-checked.\<close>

definition bridge :: "state \<Rightarrow> int \<Rightarrow> audio_bridge_state" where
  "bridge s i = bridges s ! nat i"

definition set_bridge :: "int \<Rightarrow> audio_bridge_state \<Rightarrow> state \<Rightarrow> state" where
  "set_bridge i b s = s\<lparr>bridges := (bridges s)[nat i := b]\<rparr>"

subsection \<open>Operations\<close>

text \<open>
  \<^verbatim>\<open>snprintf(full_cmd, sizeof(full_cmd), "su -c \"%s\"", cmd)\<close> with
  \<^verbatim>\<open>char full_cmd[512]\<close>: at most 511 characters are kept.
\<close>

definition full_cmd_of :: "string \<Rightarrow> string" where
  "full_cmd_of cmd = take 511 (''su -c '' @ [CHR 0x22] @ cmd @ [CHR 0x22])"

definition exec_root_cmd :: "platform \<Rightarrow> string \<Rightarrow> state \<Rightarrow> pj_status \<times> state" where
  "exec_root_cmd pf cmd s =
     (let full_cmd = full_cmd_of cmd;
          ret = system_ret pf (trace s) full_cmd;
          s' = s\<lparr>trace := trace s @ [System full_cmd]\<rparr>
      in if ret \<noteq> 0 then (PJ_EUNKNOWN, s') else (PJ_SUCCESS, s'))"

definition configure_sm6150_audio :: "platform \<Rightarrow> bool \<Rightarrow> state \<Rightarrow> pj_status \<times> state" where
  "configure_sm6150_audio pf enable s =
     (if enable then
        (case exec_root_cmd pf ''tinymix 'Voice Rx Device Mute' 0 0 0'' s of (r1, s1) \<Rightarrow>
         if r1 \<noteq> PJ_SUCCESS then (PJ_EUNKNOWN, s1) else
         case exec_root_cmd pf ''tinymix 'Voice Tx Device Mute' 0 0 0'' s1 of (r2, s2) \<Rightarrow>
         if r2 \<noteq> PJ_SUCCESS then (PJ_EUNKNOWN, s2) else
         case exec_root_cmd pf ''tinymix 'Voice Tx Mute' 0 0 0'' s2 of (r3, s3) \<Rightarrow>
         if r3 \<noteq> PJ_SUCCESS then (PJ_EUNKNOWN, s3) else
         case exec_root_cmd pf ''tinymix 'Voice Rx Gain' 20 20 20'' s3 of (r4, s4) \<Rightarrow>
         if r4 \<noteq> PJ_SUCCESS then (PJ_EUNKNOWN, s4) else
         case exec_root_cmd pf ''tinymix 'HD Voice Enable' 1 1'' s4 of (r5, s5) \<Rightarrow>
         if r5 \<noteq> PJ_SUCCESS then (PJ_EUNKNOWN, s5) else
         case exec_root_cmd pf ''service call audio 8 i32 1'' s5 of (r6, s6) \<Rightarrow>
         case exec_root_cmd pf ''service call audio 28 i32 2'' s6 of (r7, s7) \<Rightarrow>
         (PJ_SUCCESS, s7))
      else
        (case exec_root_cmd pf ''service call audio 28 i32 0'' s of (r1, s1) \<Rightarrow>
         if r1 \<noteq> PJ_SUCCESS then (PJ_EUNKNOWN, s1) else
         case exec_root_cmd pf ''service call audio 8 i32 0'' s1 of (r2, s2) \<Rightarrow>
         if r2 \<noteq> PJ_SUCCESS then (PJ_EUNKNOWN, s2) else
         case exec_root_cmd pf ''tinymix 'Voice Rx Device Mute' -1 -1 -1'' s2 of (r3, s3) \<Rightarrow>
         if r3 \<noteq> PJ_SUCCESS then (PJ_EUNKNOWN, s3) else
         case exec_root_cmd pf ''tinymix 'Voice Tx Device Mute' -1 -1 -1'' s3 of (r4, s4) \<Rightarrow>
         if r4 \<noteq> PJ_SUCCESS then (PJ_EUNKNOWN, s4) else
         (PJ_SUCCESS, s4)))"

text \<open>
  \<^verbatim>\<open>audio_bridge_init\<close>: the record is zeroed, then \<^verbatim>\<open>slot\<close> and \<^verbatim>\<open>med_endpt\<close>
  are stored, then the pool is requested and stored, and only then tested.
\<close>

definition audio_bridge_init :: "platform \<Rightarrow> int \<Rightarrow> ptr \<Rightarrow> state \<Rightarrow> pj_status \<times> state" where
  "audio_bridge_init pf slot_arg endpt s =
     (if slot_arg < 0 \<or> slot_arg \<ge> MAX_SIMS then (PJ_EINVAL, s)
      else
        let s1 = set_bridge slot_arg zeroed s;
            s2 = set_bridge slot_arg ((bridge s1 slot_arg)\<lparr>slot := slot_arg\<rparr>) s1;
            s3 = set_bridge slot_arg ((bridge s2 slot_arg)\<lparr>med_endpt := endpt\<rparr>) s2;
            p = create_pool_ret pf (trace s3) endpt;
            s4 = s3\<lparr>trace := trace s3 @ [Create_pool endpt p]\<rparr>;
            s5 = set_bridge slot_arg ((bridge s4 slot_arg)\<lparr>pool := p\<rparr>) s4
        in if pool (bridge s5 slot_arg) = NULL then (PJ_ENOMEM, s5)
           else (PJ_SUCCESS, s5))"

text \<open>
  \<^verbatim>\<open>audio_bridge_start\<close>: the two SDP arguments are not used by the body.
\<close>

definition audio_bridge_start :: "platform \<Rightarrow> int \<Rightarrow> ptr \<Rightarrow> ptr \<Rightarrow> state \<Rightarrow> pj_status \<times> state" where
  "audio_bridge_start pf slot_arg local_sdp remote_sdp s =
     (if slot_arg < 0 \<or> slot_arg \<ge> MAX_SIMS then (PJ_EINVAL, s)
      else if active (bridge s slot_arg) then (PJ_SUCCESS, s)
      else
        case configure_sm6150_audio pf True s of (audio_status, s1) \<Rightarrow>
        if audio_status \<noteq> PJ_SUCCESS then (audio_status, s1)
        else (PJ_SUCCESS, set_bridge slot_arg ((bridge s1 slot_arg)\<lparr>active := True\<rparr>) s1))"

text \<open>
  \<^verbatim>\<open>audio_bridge_stop\<close> returns \<^verbatim>\<open>void\<close>: the status of
  \<^verbatim>\<open>configure_sm6150_audio(PJ_FALSE)\<close> is dropped.
\<close>

definition audio_bridge_stop :: "platform \<Rightarrow> int \<Rightarrow> state \<Rightarrow> state" where
  "audio_bridge_stop pf slot_arg s =
     (if slot_arg < 0 \<or> slot_arg \<ge> MAX_SIMS then s
      else if \<not> active (bridge s slot_arg) then s
      else
        case configure_sm6150_audio pf False s of (ignored, s1) \<Rightarrow>
        set_bridge slot_arg ((bridge s1 slot_arg)\<lparr>active := False\<rparr>) s1)"

definition audio_bridge_destroy :: "platform \<Rightarrow> int \<Rightarrow> state \<Rightarrow> state" where
  "audio_bridge_destroy pf slot_arg s =
     (if slot_arg < 0 \<or> slot_arg \<ge> MAX_SIMS then s
      else
        let s1 = audio_bridge_stop pf slot_arg s;
            s2 = (if pool (bridge s1 slot_arg) \<noteq> NULL
                  then set_bridge slot_arg ((bridge s1 slot_arg)\<lparr>pool := NULL\<rparr>)
                         (s1\<lparr>trace := trace s1 @ [Release_pool (pool (bridge s1 slot_arg))]\<rparr>)
                  else s1)
        in set_bridge slot_arg zeroed s2)"

subsection \<open>The command sequences as lists\<close>

text \<open>
  The commands of the enable branch and of the disable branch of
  \<^verbatim>\<open>configure_sm6150_audio\<close>, in program order. The first five commands of the enable
  branch are the \<^verbatim>\<open>tinymix\<close> commands.
\<close>

definition enable_cmds :: "string list" where
  "enable_cmds =
     [''tinymix 'Voice Rx Device Mute' 0 0 0'',
      ''tinymix 'Voice Tx Device Mute' 0 0 0'',
      ''tinymix 'Voice Tx Mute' 0 0 0'',
      ''tinymix 'Voice Rx Gain' 20 20 20'',
      ''tinymix 'HD Voice Enable' 1 1'',
      ''service call audio 8 i32 1'',
      ''service call audio 28 i32 2'']"

definition disable_cmds :: "string list" where
  "disable_cmds =
     [''service call audio 28 i32 0'',
      ''service call audio 8 i32 0'',
      ''tinymix 'Voice Rx Device Mute' -1 -1 -1'',
      ''tinymix 'Voice Tx Device Mute' -1 -1 -1'']"

text \<open>
  Running a list of commands with \<^verbatim>\<open>exec_root_cmd\<close>, returning \<^verbatim>\<open>PJ_EUNKNOWN\<close> at
  the first one that fails: the pattern
  \<^verbatim>\<open>if (exec_root_cmd(...) != PJ_SUCCESS) return PJ_EUNKNOWN;\<close> repeated. It is used
  to reason about \<open>configure_sm6150_audio\<close> by induction; the lemmas
  \<open>configure_enable\<close> and \<open>configure_disable\<close> relate the two.
\<close>

fun exec_until_failure :: "platform \<Rightarrow> string list \<Rightarrow> state \<Rightarrow> pj_status \<times> state" where
  "exec_until_failure pf [] s = (PJ_SUCCESS, s)"
| "exec_until_failure pf (c # cs) s =
     (case exec_root_cmd pf c s of (r, s1) \<Rightarrow>
        if r \<noteq> PJ_SUCCESS then (PJ_EUNKNOWN, s1) else exec_until_failure pf cs s1)"

subsection \<open>Concrete platforms and states\<close>

text \<open>
  A platform on which every command succeeds and every pool request is served, and one
  on which every command exits with a non-zero status and no pool is available.
\<close>

definition ok_platform :: platform where
  "ok_platform = \<lparr>system_ret = (\<lambda>h c. 0), create_pool_ret = (\<lambda>h ep. Suc (length h))\<rparr>"

definition failing_platform :: platform where
  "failing_platform = \<lparr>system_ret = (\<lambda>h c. 1), create_pool_ret = (\<lambda>h ep. NULL)\<rparr>"

text \<open>
  Platforms on which exactly one command fails: the fourth command of the enable
  sequence (the voice gain), and its sixth (the speakerphone service call).
\<close>

definition gain_fails_platform :: platform where
  "gain_fails_platform =
     \<lparr>system_ret = (\<lambda>h c. if c = full_cmd_of ''tinymix 'Voice Rx Gain' 20 20 20'' then 1 else 0),
      create_pool_ret = (\<lambda>h ep. Suc (length h))\<rparr>"

definition speaker_fails_platform :: platform where
  "speaker_fails_platform =
     \<lparr>system_ret = (\<lambda>h c. if c = full_cmd_of ''service call audio 8 i32 1'' then 1 else 0),
      create_pool_ret = (\<lambda>h ep. Suc (length h))\<rparr>"

text \<open>
  A state in which slot 0 has been initialised (endpoint 7, pool 9) and started, and
  slot 1 has never been used.
\<close>

definition started_state :: state where
  "started_state =
     \<lparr>bridges = [\<lparr>active = True, slot = 0, med_endpt = 7, pool = 9\<rparr>, zeroed], trace = []\<rparr>"

text \<open>
  A state in which slot 1 has been initialised (endpoint 7, pool 5) and not started, and
  slot 0 has never been used.
\<close>

definition initialised_state :: state where
  "initialised_state =
     \<lparr>bridges = [zeroed, \<lparr>active = False, slot = 1, med_endpt = 7, pool = 5\<rparr>], trace = []\<rparr>"

subsection \<open>Basic facts\<close>

lemma exec_root_cmd_eq:
  "exec_root_cmd pf cmd s =
     (if system_ret pf (trace s) (full_cmd_of cmd) \<noteq> 0 then PJ_EUNKNOWN else PJ_SUCCESS,
      s\<lparr>trace := trace s @ [System (full_cmd_of cmd)]\<rparr>)"
  by (simp add: exec_root_cmd_def Let_def)

lemma full_cmd_of_short:
  "length cmd \<le> 503 \<Longrightarrow> full_cmd_of cmd = ''su -c '' @ [CHR 0x22] @ cmd @ [CHR 0x22]"
  by (simp add: full_cmd_of_def)

lemma in_range_nat:
  "wf_state s \<Longrightarrow> 0 \<le> i \<Longrightarrow> i < MAX_SIMS \<Longrightarrow> nat i < length (bridges s)"
  by (simp add: wf_state_def MAX_SIMS_def)

lemma wf_started_state: "wf_state started_state"
  by (simp add: wf_state_def started_state_def MAX_SIMS_def)

lemma wf_initial_state: "wf_state initial_state"
  by (simp add: wf_state_def initial_state_def MAX_SIMS_def)

text \<open>The list view agrees with the code.\<close>

lemma configure_enable:
  "configure_sm6150_audio pf True s =
     (case exec_until_failure pf (take 5 enable_cmds) s of (r, s5) \<Rightarrow>
      if r \<noteq> PJ_SUCCESS then (PJ_EUNKNOWN, s5)
      else (PJ_SUCCESS, snd (exec_root_cmd pf (enable_cmds ! 6)
                          (snd (exec_root_cmd pf (enable_cmds ! 5) s5)))))"
  by (simp add: configure_sm6150_audio_def enable_cmds_def split: prod.split)

lemma configure_disable:
  "configure_sm6150_audio pf False s = exec_until_failure pf disable_cmds s"
  by (simp add: configure_sm6150_audio_def disable_cmds_def split: prod.split)

lemma exec_until_failure_bridges:
  "bridges (snd (exec_until_failure pf cs s)) = bridges s"
  by (induction cs arbitrary: s) (simp_all add: exec_root_cmd_eq)

lemma exec_until_failure_status:
  "fst (exec_until_failure pf cs s) = PJ_SUCCESS \<or> fst (exec_until_failure pf cs s) = PJ_EUNKNOWN"
  by (induction cs arbitrary: s) (simp_all add: exec_root_cmd_eq)

lemma exec_until_failure_depends_on_trace:
  "trace s2 = trace s \<Longrightarrow>
     fst (exec_until_failure pf cs s2) = fst (exec_until_failure pf cs s)
   \<and> trace (snd (exec_until_failure pf cs s2)) = trace (snd (exec_until_failure pf cs s))"
  by (induction cs arbitrary: s s2) (simp_all add: exec_root_cmd_eq)

lemma exec_until_failure_all_ok:
  assumes "\<forall>j<length cs.
      system_ret pf (trace s @ map (System \<circ> full_cmd_of) (take j cs)) (full_cmd_of (cs ! j)) = 0"
  shows "exec_until_failure pf cs s
           = (PJ_SUCCESS, s\<lparr>trace := trace s @ map (System \<circ> full_cmd_of) cs\<rparr>)"
  using assms
proof (induction cs arbitrary: s)
  case Nil
  then show ?case by simp
next
  case (Cons c cs)
  let ?s1 = "s\<lparr>trace := trace s @ [System (full_cmd_of c)]\<rparr>"
  have ok: "system_ret pf (trace s) (full_cmd_of c) = 0"
    using Cons.prems by fastforce
  have rest: "\<forall>j<length cs.
      system_ret pf (trace ?s1 @ map (System \<circ> full_cmd_of) (take j cs)) (full_cmd_of (cs ! j)) = 0"
  proof (intro allI impI)
    fix j assume "j < length cs"
    then have "Suc j < length (c # cs)" by simp
    from Cons.prems [rule_format, OF this] show
      "system_ret pf (trace ?s1 @ map (System \<circ> full_cmd_of) (take j cs)) (full_cmd_of (cs ! j)) = 0"
      by simp
  qed
  show ?case
    using Cons.IH [OF rest] ok by (simp add: exec_root_cmd_eq)
qed

lemma exec_until_failure_fails_at:
  assumes "k < length cs"
    and "\<forall>j<k.
      system_ret pf (trace s @ map (System \<circ> full_cmd_of) (take j cs)) (full_cmd_of (cs ! j)) = 0"
    and "system_ret pf (trace s @ map (System \<circ> full_cmd_of) (take k cs)) (full_cmd_of (cs ! k)) \<noteq> 0"
  shows "exec_until_failure pf cs s
           = (PJ_EUNKNOWN, s\<lparr>trace := trace s @ map (System \<circ> full_cmd_of) (take (Suc k) cs)\<rparr>)"
  using assms
proof (induction cs arbitrary: s k)
  case Nil
  then show ?case by simp
next
  case (Cons c cs)
  show ?case
  proof (cases k)
    case 0
    then show ?thesis using Cons.prems by (simp add: exec_root_cmd_eq)
  next
    case (Suc k')
    let ?s1 = "s\<lparr>trace := trace s @ [System (full_cmd_of c)]\<rparr>"
    have ok: "system_ret pf (trace s) (full_cmd_of c) = 0"
      using Cons.prems(2) Suc by fastforce
    have len: "k' < length cs" using Cons.prems(1) Suc by simp
    have before: "\<forall>j<k'.
        system_ret pf (trace ?s1 @ map (System \<circ> full_cmd_of) (take j cs)) (full_cmd_of (cs ! j)) = 0"
    proof (intro allI impI)
      fix j assume "j < k'"
      then have "Suc j < k" using Suc by simp
      from Cons.prems(2) [rule_format, OF this] show
        "system_ret pf (trace ?s1 @ map (System \<circ> full_cmd_of) (take j cs)) (full_cmd_of (cs ! j)) = 0"
        by simp
    qed
    have at: "system_ret pf (trace ?s1 @ map (System \<circ> full_cmd_of) (take k' cs))
                (full_cmd_of (cs ! k')) \<noteq> 0"
      using Cons.prems(3) Suc by (simp add: comp_def)
    show ?thesis
      using Cons.IH [OF len before at] ok Suc by (simp add: exec_root_cmd_eq)
  qed
qed

lemma configure_bridges: "bridges (snd (configure_sm6150_audio pf en s)) = bridges s"
proof (cases en)
  case True
  obtain r s5 where e: "exec_until_failure pf (take 5 enable_cmds) s = (r, s5)"
    by (cases "exec_until_failure pf (take 5 enable_cmds) s")
  have "bridges s5 = bridges s"
    using exec_until_failure_bridges [of pf "take 5 enable_cmds" s] e by simp
  then show ?thesis
    using True by (simp add: configure_enable e exec_root_cmd_eq)
next
  case False
  then show ?thesis by (simp add: configure_disable exec_until_failure_bridges)
qed

lemma configure_status:
  "fst (configure_sm6150_audio pf en s) = PJ_SUCCESS
   \<or> fst (configure_sm6150_audio pf en s) = PJ_EUNKNOWN"
proof (cases en)
  case True
  then show ?thesis by (simp add: configure_enable split: prod.split)
next
  case False
  then show ?thesis by (simp add: configure_disable exec_until_failure_status)
qed

lemma configure_depends_on_trace:
  assumes "trace s2 = trace s"
  shows "fst (configure_sm6150_audio pf en s2) = fst (configure_sm6150_audio pf en s)
       \<and> trace (snd (configure_sm6150_audio pf en s2))
           = trace (snd (configure_sm6150_audio pf en s))"
proof (cases en)
  case True
  obtain r s5 where e: "exec_until_failure pf (take 5 enable_cmds) s = (r, s5)"
    by (cases "exec_until_failure pf (take 5 enable_cmds) s")
  obtain r2 t5 where e2: "exec_until_failure pf (take 5 enable_cmds) s2 = (r2, t5)"
    by (cases "exec_until_failure pf (take 5 enable_cmds) s2")
  have "r2 = r \<and> trace t5 = trace s5"
    using exec_until_failure_depends_on_trace [OF assms, of pf "take 5 enable_cmds"] e e2
    by simp
  then show ?thesis
    using True by (simp add: configure_enable e e2 exec_root_cmd_eq)
next
  case False
  then show ?thesis
    using exec_until_failure_depends_on_trace [OF assms, of pf disable_cmds]
    by (simp add: configure_disable)
qed

text \<open>The entry points on an in-range slot.\<close>

lemma start_inactive_eq:
  assumes "0 \<le> slot_arg" and "slot_arg < MAX_SIMS" and "\<not> active (bridge s slot_arg)"
  shows "audio_bridge_start pf slot_arg l r s =
     (if fst (configure_sm6150_audio pf True s) \<noteq> PJ_SUCCESS
      then configure_sm6150_audio pf True s
      else (PJ_SUCCESS,
            \<lparr>bridges = (bridges s)[nat slot_arg := (bridge s slot_arg)\<lparr>active := True\<rparr>],
             trace = trace (snd (configure_sm6150_audio pf True s))\<rparr>))"
proof -
  obtain st s1 where c: "configure_sm6150_audio pf True s = (st, s1)"
    by (cases "configure_sm6150_audio pf True s")
  have b: "bridges s1 = bridges s"
    using configure_bridges [of pf True s] c by simp
  show ?thesis
    using assms b by (simp add: audio_bridge_start_def c set_bridge_def bridge_def)
qed

lemma stop_active_eq:
  assumes "0 \<le> slot_arg" and "slot_arg < MAX_SIMS" and "active (bridge s slot_arg)"
  shows "audio_bridge_stop pf slot_arg s =
     \<lparr>bridges = (bridges s)[nat slot_arg := (bridge s slot_arg)\<lparr>active := False\<rparr>],
      trace = trace (snd (configure_sm6150_audio pf False s))\<rparr>"
proof -
  obtain st s1 where c: "configure_sm6150_audio pf False s = (st, s1)"
    by (cases "configure_sm6150_audio pf False s")
  have b: "bridges s1 = bridges s"
    using configure_bridges [of pf False s] c by simp
  show ?thesis
    using assms b by (simp add: audio_bridge_stop_def c set_bridge_def bridge_def)
qed

lemma init_in_range_eq:
  assumes "wf_state s" and "0 \<le> slot_arg" and "slot_arg < MAX_SIMS"
  shows "audio_bridge_init pf slot_arg endpt s =
     (if create_pool_ret pf (trace s) endpt = NULL then PJ_ENOMEM else PJ_SUCCESS,
      \<lparr>bridges = (bridges s)[nat slot_arg :=
          \<lparr>active = False, slot = slot_arg, med_endpt = endpt,
           pool = create_pool_ret pf (trace s) endpt\<rparr>],
       trace = trace s @ [Create_pool endpt (create_pool_ret pf (trace s) endpt)]\<rparr>)"
  using in_range_nat [OF assms] assms(2,3)
  by (simp add: audio_bridge_init_def set_bridge_def bridge_def zeroed_def Let_def)

text \<open>The enable and disable sequences under given platform answers.\<close>

lemma length_enable_cmds: "length enable_cmds = 7"
  by (simp add: enable_cmds_def)

lemma enable_cmds_split:
  "take 5 enable_cmds @ [enable_cmds ! 5, enable_cmds ! 6] = enable_cmds"
  by (simp add: enable_cmds_def)

lemma configure_enable_fails_at:
  assumes "k < 5"
    and "\<forall>j<k. system_ret pf (trace s @ map (System \<circ> full_cmd_of) (take j enable_cmds))
                 (full_cmd_of (enable_cmds ! j)) = 0"
    and "system_ret pf (trace s @ map (System \<circ> full_cmd_of) (take k enable_cmds))
           (full_cmd_of (enable_cmds ! k)) \<noteq> 0"
  shows "configure_sm6150_audio pf True s
           = (PJ_EUNKNOWN,
              s\<lparr>trace := trace s @ map (System \<circ> full_cmd_of) (take (Suc k) enable_cmds)\<rparr>)"
proof -
  let ?cs = "take 5 enable_cmds"
  have len: "k < length ?cs"
    using assms(1) by (simp add: length_enable_cmds)
  have before: "\<forall>j<k. system_ret pf (trace s @ map (System \<circ> full_cmd_of) (take j ?cs))
                   (full_cmd_of (?cs ! j)) = 0"
  proof (intro allI impI)
    fix j assume j: "j < k"
    then have "take j ?cs = take j enable_cmds" and "?cs ! j = enable_cmds ! j"
      using assms(1) by (simp_all add: min_def)
    then show "system_ret pf (trace s @ map (System \<circ> full_cmd_of) (take j ?cs))
                 (full_cmd_of (?cs ! j)) = 0"
      using assms(2) j by simp
  qed
  have "take k ?cs = take k enable_cmds" and "?cs ! k = enable_cmds ! k"
    using assms(1) by (simp_all add: min_def)
  then have at: "system_ret pf (trace s @ map (System \<circ> full_cmd_of) (take k ?cs))
                   (full_cmd_of (?cs ! k)) \<noteq> 0"
    using assms(3) by simp
  have "take (Suc k) ?cs = take (Suc k) enable_cmds"
    using assms(1) by (simp add: min_def)
  then have "exec_until_failure pf ?cs s
      = (PJ_EUNKNOWN,
         s\<lparr>trace := trace s @ map (System \<circ> full_cmd_of) (take (Suc k) enable_cmds)\<rparr>)"
    using exec_until_failure_fails_at [OF len before at] by simp
  then show ?thesis
    by (simp add: configure_enable)
qed

lemma configure_enable_mixer_ok:
  assumes "\<forall>j<5. system_ret pf (trace s @ map (System \<circ> full_cmd_of) (take j enable_cmds))
                 (full_cmd_of (enable_cmds ! j)) = 0"
  shows "fst (configure_sm6150_audio pf True s) = PJ_SUCCESS
       \<and> trace (snd (configure_sm6150_audio pf True s))
           = trace s @ map (System \<circ> full_cmd_of) enable_cmds"
proof -
  let ?cs = "take 5 enable_cmds"
  have all: "\<forall>j<length ?cs. system_ret pf (trace s @ map (System \<circ> full_cmd_of) (take j ?cs))
                   (full_cmd_of (?cs ! j)) = 0"
  proof (intro allI impI)
    fix j assume "j < length ?cs"
    then have j: "j < 5" by (simp add: length_enable_cmds)
    then have "take j ?cs = take j enable_cmds" and "?cs ! j = enable_cmds ! j"
      by (simp_all add: min_def)
    then show "system_ret pf (trace s @ map (System \<circ> full_cmd_of) (take j ?cs))
                 (full_cmd_of (?cs ! j)) = 0"
      using assms j by simp
  qed
  have e: "exec_until_failure pf ?cs s
             = (PJ_SUCCESS, s\<lparr>trace := trace s @ map (System \<circ> full_cmd_of) ?cs\<rparr>)"
    by (rule exec_until_failure_all_ok [OF all])
  have "map (System \<circ> full_cmd_of) ?cs
          @ [System (full_cmd_of (enable_cmds ! 5)), System (full_cmd_of (enable_cmds ! 6))]
        = map (System \<circ> full_cmd_of) (?cs @ [enable_cmds ! 5, enable_cmds ! 6])"
    by simp
  also have "\<dots> = map (System \<circ> full_cmd_of) enable_cmds"
    by (simp only: enable_cmds_split)
  finally show ?thesis
    by (simp add: configure_enable e exec_root_cmd_eq)
qed

lemma configure_disable_all_ok:
  assumes "\<forall>h c. system_ret pf h c = 0"
  shows "trace (snd (configure_sm6150_audio pf False s))
           = trace s @ map (System \<circ> full_cmd_of) disable_cmds"
  using exec_until_failure_all_ok [of disable_cmds pf s] assms
  by (simp add: configure_disable)

lemma stop_in_range:
  assumes "wf_state s" and "0 \<le> slot_arg" and "slot_arg < MAX_SIMS"
  shows "bridges (audio_bridge_stop pf slot_arg s)
           = (bridges s)[nat slot_arg := (bridge s slot_arg)\<lparr>active := False\<rparr>]"
proof (cases "active (bridge s slot_arg)")
  case True
  then show ?thesis by (simp add: stop_active_eq [OF assms(2,3)])
next
  case False
  then have e: "(bridges s ! nat slot_arg)\<lparr>active := False\<rparr> = bridges s ! nat slot_arg"
    by (simp add: bridge_def)
  show ?thesis
    using False assms(2,3) by (simp add: audio_bridge_stop_def bridge_def e)
qed

lemma destroy_in_range_eq:
  assumes "wf_state s" and "0 \<le> slot_arg" and "slot_arg < MAX_SIMS"
  shows "audio_bridge_destroy pf slot_arg s =
     \<lparr>bridges = (bridges s)[nat slot_arg := zeroed],
      trace = trace (audio_bridge_stop pf slot_arg s)
        @ (if pool (bridge s slot_arg) \<noteq> NULL
           then [Release_pool (pool (bridge s slot_arg))] else [])\<rparr>"
proof -
  have n: "nat slot_arg < length (bridges s)"
    by (rule in_range_nat [OF assms])
  have p: "pool (bridge (audio_bridge_stop pf slot_arg s) slot_arg) = pool (bridge s slot_arg)"
    using n by (simp add: bridge_def stop_in_range [OF assms])
  show ?thesis
    using assms(2,3) p
    by (simp add: audio_bridge_destroy_def Let_def set_bridge_def stop_in_range [OF assms])
qed

lemma all_less_3: "(\<forall>j<3::nat. P j) \<longleftrightarrow> P 0 \<and> P 1 \<and> P 2"
proof -
  have "j < 3 \<longleftrightarrow> j = 0 \<or> j = 1 \<or> j = 2" for j :: nat by arith
  then show ?thesis by auto
qed

lemma all_less_5: "(\<forall>j<5::nat. P j) \<longleftrightarrow> P 0 \<and> P 1 \<and> P 2 \<and> P 3 \<and> P 4"
proof -
  have "j < 5 \<longleftrightarrow> j = 0 \<or> j = 1 \<or> j = 2 \<or> j = 3 \<or> j = 4" for j :: nat by arith
  then show ?thesis by auto
qed

lemma full_cmd_of_eq_iff:
  "length a \<le> 503 \<Longrightarrow> length b \<le> 503 \<Longrightarrow> full_cmd_of a = full_cmd_of b \<longleftrightarrow> a = b"
  by (simp add: full_cmd_of_short)

subsection \<open>Out-of-range slots\<close>

text \<open>
  C4. For every slot outside \<open>[0, MAX_SIMS)\<close>, \<^verbatim>\<open>audio_bridge_init\<close> and
  \<^verbatim>\<open>audio_bridge_start\<close> return \<^verbatim>\<open>PJ_EINVAL\<close>, \<^verbatim>\<open>audio_bridge_stop\<close> and
  \<^verbatim>\<open>audio_bridge_destroy\<close> return silently, and in all four cases the state (every
  record of the array, and the trace of platform calls) is the one before the call,
  whatever the records hold.
\<close>

theorem invalid_slot_untouched:
  assumes "slot_arg < 0 \<or> slot_arg \<ge> MAX_SIMS"
  shows "audio_bridge_init pf slot_arg endpt s = (PJ_EINVAL, s)
       \<and> audio_bridge_start pf slot_arg local_sdp remote_sdp s = (PJ_EINVAL, s)
       \<and> audio_bridge_stop pf slot_arg s = s
       \<and> audio_bridge_destroy pf slot_arg s = s"
  using assms
  by (simp add: audio_bridge_init_def audio_bridge_start_def audio_bridge_stop_def
      audio_bridge_destroy_def)

theorem invalid_slot_untouched_witness:
  "((2::int) < 0 \<or> 2 \<ge> MAX_SIMS)
   \<and> audio_bridge_init ok_platform 2 7 started_state = (PJ_EINVAL, started_state)
   \<and> audio_bridge_start ok_platform 2 0 0 started_state = (PJ_EINVAL, started_state)
   \<and> audio_bridge_stop ok_platform 2 started_state = started_state
   \<and> audio_bridge_destroy ok_platform 2 started_state = started_state"
proof -
  have h: "(2::int) < 0 \<or> 2 \<ge> MAX_SIMS" by (simp add: MAX_SIMS_def)
  show ?thesis
    using h invalid_slot_untouched [OF h, of ok_platform 7 started_state 0 0] by simp
qed

subsection \<open>Stopping\<close>

text \<open>
  C1. For every in-range slot whose record is active, \<^verbatim>\<open>audio_bridge_stop\<close> leaves the
  record with \<open>active = False\<close> and every other field, and every other record, as it
  was. This holds on every platform, so also on one where every restoration command
  fails; \<^verbatim>\<open>audio_bridge_stop\<close> returns a state and no status, so no failure reaches the
  caller.
\<close>

theorem stop_clears_active:
  assumes "wf_state s" and "0 \<le> slot_arg" and "slot_arg < MAX_SIMS"
    and "active (bridge s slot_arg)"
  shows "\<not> active (bridge (audio_bridge_stop pf slot_arg s) slot_arg)
       \<and> bridges (audio_bridge_stop pf slot_arg s)
           = (bridges s)[nat slot_arg := (bridge s slot_arg)\<lparr>active := False\<rparr>]"
proof -
  obtain r s1 where c: "configure_sm6150_audio pf False s = (r, s1)"
    by (cases "configure_sm6150_audio pf False s")
  have b: "bridges s1 = bridges s"
    using configure_bridges [of pf False s] c by simp
  have st: "audio_bridge_stop pf slot_arg s
              = set_bridge slot_arg ((bridge s1 slot_arg)\<lparr>active := False\<rparr>) s1"
    using assms c by (simp add: audio_bridge_stop_def)
  show ?thesis
    using in_range_nat [OF assms(1-3)] b by (simp add: st set_bridge_def bridge_def)
qed

theorem stop_clears_active_witness:
  "wf_state started_state \<and> (0::int) \<le> 0 \<and> 0 < MAX_SIMS \<and> active (bridge started_state 0)
   \<and> \<not> active (bridge (audio_bridge_stop failing_platform 0 started_state) 0)
   \<and> bridges (audio_bridge_stop failing_platform 0 started_state)
       = [\<lparr>active = False, slot = 0, med_endpt = 7, pool = 9\<rparr>, zeroed]"
proof -
  have h1: "wf_state started_state"
    by (rule wf_started_state)
  have h2: "(0::int) \<le> 0" by simp
  have h3: "0 < MAX_SIMS" by (simp add: MAX_SIMS_def)
  have h4: "active (bridge started_state 0)"
    by (simp add: bridge_def started_state_def)
  show ?thesis
    using h1 h3 h4 stop_clears_active [OF h1 h2 h3 h4, of failing_platform]
    by (simp add: bridge_def started_state_def)
qed

subsection \<open>Starting\<close>

text \<open>
  C6. For every in-range slot whose record is not active, if the routing step
  (\<^verbatim>\<open>configure_sm6150_audio(PJ_TRUE)\<close>) fails, \<^verbatim>\<open>audio_bridge_start\<close> returns the
  status of the routing step, no record of the array is changed, and so the record's
  active flag is still false.
\<close>

theorem failed_start_leaves_record:
  assumes "0 \<le> slot_arg" and "slot_arg < MAX_SIMS" and "\<not> active (bridge s slot_arg)"
    and "fst (configure_sm6150_audio pf True s) \<noteq> PJ_SUCCESS"
  shows "fst (audio_bridge_start pf slot_arg l r s) = fst (configure_sm6150_audio pf True s)
       \<and> bridges (snd (audio_bridge_start pf slot_arg l r s)) = bridges s
       \<and> \<not> active (bridge (snd (audio_bridge_start pf slot_arg l r s)) slot_arg)"
  using assms(3,4) configure_bridges [of pf True s]
  by (simp add: start_inactive_eq [OF assms(1-3)] bridge_def)

theorem failed_start_leaves_record_witness:
  "(0::int) \<le> 1 \<and> 1 < MAX_SIMS \<and> \<not> active (bridge started_state 1)
   \<and> fst (configure_sm6150_audio failing_platform True started_state) \<noteq> PJ_SUCCESS
   \<and> fst (audio_bridge_start failing_platform 1 0 0 started_state) = PJ_EUNKNOWN
   \<and> bridges (snd (audio_bridge_start failing_platform 1 0 0 started_state))
       = bridges started_state
   \<and> \<not> active (bridge (snd (audio_bridge_start failing_platform 1 0 0 started_state)) 1)"
proof -
  have h1: "(0::int) \<le> 1" by simp
  have h2: "1 < MAX_SIMS" by (simp add: MAX_SIMS_def)
  have h3: "\<not> active (bridge started_state 1)"
    by (simp add: bridge_def started_state_def zeroed_def)
  have c: "configure_sm6150_audio failing_platform True started_state
             = (PJ_EUNKNOWN,
                started_state\<lparr>trace := trace started_state
                   @ map (System \<circ> full_cmd_of) (take (Suc 0) enable_cmds)\<rparr>)"
    by (rule configure_enable_fails_at) (simp_all add: failing_platform_def)
  have h4: "fst (configure_sm6150_audio failing_platform True started_state) \<noteq> PJ_SUCCESS"
    by (simp add: c)
  show ?thesis
    using h2 h3 h4 failed_start_leaves_record [OF h1 h2 h3 h4, of 0 0]
    by (simp add: c)
qed

text \<open>
  C9. \<^verbatim>\<open>audio_bridge_start\<close> does not need a prior \<^verbatim>\<open>audio_bridge_init\<close>. For every
  in-range slot whose record is not active, whatever its pool field holds, start issues
  the commands of the routing step and returns its status; if that is success, the
  record differs from the one before only in \<open>active = True\<close> (so a null pool stays
  null). The only field of the record that start reads is the active flag: on two
  states with the same trace and the same active flag for the slot, start returns the
  same status and issues the same commands.
\<close>

theorem start_needs_no_init:
  assumes "wf_state s" and "0 \<le> slot_arg" and "slot_arg < MAX_SIMS"
    and "\<not> active (bridge s slot_arg)"
  shows "trace (snd (audio_bridge_start pf slot_arg l r s))
           = trace (snd (configure_sm6150_audio pf True s))
       \<and> fst (audio_bridge_start pf slot_arg l r s) = fst (configure_sm6150_audio pf True s)
       \<and> (fst (audio_bridge_start pf slot_arg l r s) = PJ_SUCCESS \<longrightarrow>
            active (bridge (snd (audio_bridge_start pf slot_arg l r s)) slot_arg)
          \<and> pool (bridge (snd (audio_bridge_start pf slot_arg l r s)) slot_arg)
              = pool (bridge s slot_arg)
          \<and> bridges (snd (audio_bridge_start pf slot_arg l r s))
              = (bridges s)[nat slot_arg := (bridge s slot_arg)\<lparr>active := True\<rparr>])
       \<and> (\<forall>s2. trace s2 = trace s \<and> active (bridge s2 slot_arg) = active (bridge s slot_arg) \<longrightarrow>
            fst (audio_bridge_start pf slot_arg l r s2) = fst (audio_bridge_start pf slot_arg l r s)
          \<and> trace (snd (audio_bridge_start pf slot_arg l r s2))
              = trace (snd (audio_bridge_start pf slot_arg l r s)))"
proof -
  note eq = start_inactive_eq [OF assms(2,3)]
  have n: "nat slot_arg < length (bridges s)"
    by (rule in_range_nat [OF assms(1-3)])
  have a: "trace (snd (audio_bridge_start pf slot_arg l r s))
           = trace (snd (configure_sm6150_audio pf True s))"
    by (simp add: eq [OF assms(4)])
  have b: "fst (audio_bridge_start pf slot_arg l r s) = fst (configure_sm6150_audio pf True s)"
    by (simp add: eq [OF assms(4)])
  have c: "fst (audio_bridge_start pf slot_arg l r s) = PJ_SUCCESS \<longrightarrow>
            active (bridge (snd (audio_bridge_start pf slot_arg l r s)) slot_arg)
          \<and> pool (bridge (snd (audio_bridge_start pf slot_arg l r s)) slot_arg)
              = pool (bridge s slot_arg)
          \<and> bridges (snd (audio_bridge_start pf slot_arg l r s))
              = (bridges s)[nat slot_arg := (bridge s slot_arg)\<lparr>active := True\<rparr>]"
    using n by (simp add: eq [OF assms(4)] bridge_def)
  have d: "fst (audio_bridge_start pf slot_arg l r s2) = fst (audio_bridge_start pf slot_arg l r s)
          \<and> trace (snd (audio_bridge_start pf slot_arg l r s2))
              = trace (snd (audio_bridge_start pf slot_arg l r s))"
    if t: "trace s2 = trace s" and f: "active (bridge s2 slot_arg) = active (bridge s slot_arg)"
    for s2
  proof -
    have i2: "\<not> active (bridge s2 slot_arg)" using f assms(4) by simp
    show ?thesis
      using configure_depends_on_trace [OF t, of pf True]
      by (simp add: eq [OF assms(4)] eq [OF i2])
  qed
  show ?thesis using a b c d by blast
qed

theorem start_needs_no_init_witness:
  "wf_state initial_state \<and> (0::int) \<le> 1 \<and> 1 < MAX_SIMS
   \<and> \<not> active (bridge initial_state 1) \<and> pool (bridge initial_state 1) = NULL
   \<and> fst (audio_bridge_start ok_platform 1 0 0 initial_state) = PJ_SUCCESS
   \<and> trace (snd (audio_bridge_start ok_platform 1 0 0 initial_state))
       = map (System \<circ> full_cmd_of) enable_cmds
   \<and> active (bridge (snd (audio_bridge_start ok_platform 1 0 0 initial_state)) 1)
   \<and> pool (bridge (snd (audio_bridge_start ok_platform 1 0 0 initial_state)) 1) = NULL
   \<and> trace initialised_state = trace initial_state
   \<and> active (bridge initialised_state 1) = active (bridge initial_state 1)
   \<and> pool (bridge initialised_state 1) = 5
   \<and> fst (audio_bridge_start ok_platform 1 0 0 initialised_state)
       = fst (audio_bridge_start ok_platform 1 0 0 initial_state)
   \<and> trace (snd (audio_bridge_start ok_platform 1 0 0 initialised_state))
       = trace (snd (audio_bridge_start ok_platform 1 0 0 initial_state))"
proof -
  have h1: "wf_state initial_state" by (rule wf_initial_state)
  have h2: "(0::int) \<le> 1" by simp
  have h3: "1 < MAX_SIMS" by (simp add: MAX_SIMS_def)
  have h4: "\<not> active (bridge initial_state 1)"
    by (simp add: bridge_def initial_state_def zeroed_def MAX_SIMS_def)
  have p: "pool (bridge initial_state 1) = NULL"
    by (simp add: bridge_def initial_state_def zeroed_def MAX_SIMS_def)
  have c: "fst (configure_sm6150_audio ok_platform True initial_state) = PJ_SUCCESS
         \<and> trace (snd (configure_sm6150_audio ok_platform True initial_state))
             = trace initial_state @ map (System \<circ> full_cmd_of) enable_cmds"
    by (rule configure_enable_mixer_ok) (simp add: ok_platform_def)
  have t: "trace initial_state = []" by (simp add: initial_state_def)
  have t2: "trace initialised_state = trace initial_state"
    by (simp add: initialised_state_def initial_state_def)
  have a2: "active (bridge initialised_state 1) = active (bridge initial_state 1)"
    using h4 by (simp add: bridge_def initialised_state_def)
  have p2: "pool (bridge initialised_state 1) = 5"
    by (simp add: bridge_def initialised_state_def)
  show ?thesis
    using h1 h3 h4 p c t t2 a2 p2 start_needs_no_init [OF h1 h2 h3 h4, of ok_platform 0 0]
    by simp
qed

text \<open>
  C2, as the code has it. For every in-range slot, if a call of \<^verbatim>\<open>audio_bridge_start\<close>
  returns \<^verbatim>\<open>PJ_SUCCESS\<close>, then a second call on the same slot in the resulting state
  (no stop in between) returns \<^verbatim>\<open>PJ_SUCCESS\<close> and leaves the state as it is: it
  issues no command, whatever the platform would answer, so the routing sequence has
  run at most once.
\<close>

theorem second_start_is_noop:
  assumes "wf_state s" and "0 \<le> slot_arg" and "slot_arg < MAX_SIMS"
    and "audio_bridge_start pf slot_arg l r s = (PJ_SUCCESS, s1)"
  shows "audio_bridge_start pf2 slot_arg l2 r2 s1 = (PJ_SUCCESS, s1)"
proof (cases "active (bridge s slot_arg)")
  case True
  then have "s1 = s" using assms by (simp add: audio_bridge_start_def)
  then show ?thesis using True assms by (simp add: audio_bridge_start_def)
next
  case False
  have n: "nat slot_arg < length (bridges s)"
    by (rule in_range_nat [OF assms(1-3)])
  have "active (bridge s1 slot_arg)"
    using assms(4) n
    by (auto simp: start_inactive_eq [OF assms(2,3) False] bridge_def split: if_splits)
  then show ?thesis using assms by (simp add: audio_bridge_start_def)
qed

theorem second_start_is_noop_witness:
  "wf_state initial_state \<and> (0::int) \<le> 0 \<and> 0 < MAX_SIMS
   \<and> fst (audio_bridge_start ok_platform 0 0 0 initial_state) = PJ_SUCCESS
   \<and> audio_bridge_start failing_platform 0 0 0
        (snd (audio_bridge_start ok_platform 0 0 0 initial_state))
       = (PJ_SUCCESS, snd (audio_bridge_start ok_platform 0 0 0 initial_state))"
proof -
  have h1: "wf_state initial_state" by (rule wf_initial_state)
  have h2: "(0::int) \<le> 0" by simp
  have h3: "0 < MAX_SIMS" by (simp add: MAX_SIMS_def)
  have na: "\<not> active (bridge initial_state 0)"
    by (simp add: bridge_def initial_state_def zeroed_def MAX_SIMS_def)
  have c: "fst (configure_sm6150_audio ok_platform True initial_state) = PJ_SUCCESS"
    using configure_enable_mixer_ok [of ok_platform initial_state]
    by (simp add: ok_platform_def)
  have f: "fst (audio_bridge_start ok_platform 0 0 0 initial_state) = PJ_SUCCESS"
    by (simp add: start_inactive_eq [OF h2 h3 na] c)
  then have h4: "audio_bridge_start ok_platform 0 0 0 initial_state
                   = (PJ_SUCCESS, snd (audio_bridge_start ok_platform 0 0 0 initial_state))"
    by (simp add: prod_eq_iff)
  show ?thesis
    using h1 h3 f second_start_is_noop [OF h1 h2 h3 h4, of failing_platform 0 0]
    by simp
qed

text \<open>
  C2, as stated, fails: on a platform where the first routing command fails, both calls
  return \<^verbatim>\<open>PJ_EUNKNOWN\<close> and each of them issues the first routing command.
\<close>

theorem start_twice_counterexample:
  "fst (audio_bridge_start failing_platform 0 0 0 initial_state) = PJ_EUNKNOWN
   \<and> fst (audio_bridge_start failing_platform 0 0 0
            (snd (audio_bridge_start failing_platform 0 0 0 initial_state))) = PJ_EUNKNOWN
   \<and> trace (snd (audio_bridge_start failing_platform 0 0 0
            (snd (audio_bridge_start failing_platform 0 0 0 initial_state))))
       = [System (full_cmd_of ''tinymix 'Voice Rx Device Mute' 0 0 0''),
          System (full_cmd_of ''tinymix 'Voice Rx Device Mute' 0 0 0'')]"
proof -
  let ?c = "''tinymix 'Voice Rx Device Mute' 0 0 0''"
  let ?s1 = "initial_state\<lparr>trace := [System (full_cmd_of ?c)]\<rparr>"
  have h2: "(0::int) \<le> 0" by simp
  have h3: "0 < MAX_SIMS" by (simp add: MAX_SIMS_def)
  have e0: "take (Suc 0) enable_cmds = [?c]"
    by (simp add: enable_cmds_def)
  have c: "configure_sm6150_audio failing_platform True s
             = (PJ_EUNKNOWN, s\<lparr>trace := trace s @ [System (full_cmd_of ?c)]\<rparr>)"
    for s
    using configure_enable_fails_at [of 0 failing_platform s]
    by (simp add: failing_platform_def e0)
  have t: "trace initial_state = []"
    by (simp add: initial_state_def)
  have na: "\<not> active (bridge initial_state 0)"
    by (simp add: bridge_def initial_state_def zeroed_def MAX_SIMS_def)
  have first: "audio_bridge_start failing_platform 0 0 0 initial_state = (PJ_EUNKNOWN, ?s1)"
    by (simp add: start_inactive_eq [OF h2 h3 na] c t)
  have na2: "\<not> active (bridge ?s1 0)"
    by (simp add: bridge_def initial_state_def zeroed_def MAX_SIMS_def)
  have second: "audio_bridge_start failing_platform 0 0 0 ?s1
                 = (PJ_EUNKNOWN,
                    initial_state\<lparr>trace := [System (full_cmd_of ?c), System (full_cmd_of ?c)]\<rparr>)"
    by (simp add: start_inactive_eq [OF h2 h3 na2] c)
  show ?thesis
    by (simp add: first second)
qed

subsection \<open>Destroying\<close>

text \<open>
  C5. For every in-range slot and every prior content of its record,
  \<^verbatim>\<open>audio_bridge_destroy\<close> leaves the record zeroed (active false, slot 0, endpoint and
  pool null) and the other records as they were. Its platform calls are those of
  \<^verbatim>\<open>audio_bridge_stop\<close> on the same state, which for an active record are the commands
  of \<^verbatim>\<open>configure_sm6150_audio(PJ_FALSE)\<close>, followed by the release of the pool when the
  record held one.
\<close>

theorem destroy_zeroes_record:
  assumes "wf_state s" and "0 \<le> slot_arg" and "slot_arg < MAX_SIMS"
  shows "bridge (audio_bridge_destroy pf slot_arg s) slot_arg
           = \<lparr>active = False, slot = 0, med_endpt = NULL, pool = NULL\<rparr>
       \<and> bridges (audio_bridge_destroy pf slot_arg s) = (bridges s)[nat slot_arg := zeroed]
       \<and> trace (audio_bridge_destroy pf slot_arg s)
           = trace (audio_bridge_stop pf slot_arg s)
             @ (if pool (bridge s slot_arg) \<noteq> NULL
                then [Release_pool (pool (bridge s slot_arg))] else [])
       \<and> (active (bridge s slot_arg) \<longrightarrow>
            trace (audio_bridge_stop pf slot_arg s)
              = trace (snd (configure_sm6150_audio pf False s)))"
proof -
  have n: "nat slot_arg < length (bridges s)"
    by (rule in_range_nat [OF assms])
  have a: "active (bridge s slot_arg) \<longrightarrow>
            trace (audio_bridge_stop pf slot_arg s)
              = trace (snd (configure_sm6150_audio pf False s))"
    by (simp add: stop_active_eq [OF assms(2,3)])
  show ?thesis
    using n a by (simp add: destroy_in_range_eq [OF assms] bridge_def zeroed_def)
qed

theorem destroy_zeroes_record_witness:
  "wf_state started_state \<and> (0::int) \<le> 0 \<and> 0 < MAX_SIMS \<and> active (bridge started_state 0)
   \<and> bridge (audio_bridge_destroy failing_platform 0 started_state) 0
       = \<lparr>active = False, slot = 0, med_endpt = NULL, pool = NULL\<rparr>
   \<and> trace (audio_bridge_destroy failing_platform 0 started_state)
       = [System (full_cmd_of ''service call audio 28 i32 0''), Release_pool 9]"
proof -
  have h1: "wf_state started_state" by (rule wf_started_state)
  have h2: "(0::int) \<le> 0" by simp
  have h3: "0 < MAX_SIMS" by (simp add: MAX_SIMS_def)
  have act: "active (bridge started_state 0)"
    by (simp add: bridge_def started_state_def)
  have p: "pool (bridge started_state 0) = 9"
    by (simp add: bridge_def started_state_def)
  have t: "trace started_state = []"
    by (simp add: started_state_def)
  have c: "trace (snd (configure_sm6150_audio failing_platform False started_state))
             = [System (full_cmd_of ''service call audio 28 i32 0'')]"
    by (simp add: configure_disable disable_cmds_def exec_root_cmd_eq failing_platform_def t)
  show ?thesis
    using h1 h3 act p c destroy_zeroes_record [OF h1 h2 h3, of failing_platform]
    by simp
qed

subsection \<open>Initialising\<close>

text \<open>
  C7. For every in-range slot \<open>slot_arg\<close>: if \<^verbatim>\<open>audio_bridge_init\<close> returns
  \<^verbatim>\<open>PJ_SUCCESS\<close>, the record of the slot holds the pool that was acquired, which is
  not null, has \<open>active = False\<close>, and stores \<open>slot_arg\<close> and the given endpoint;
  and init returns \<^verbatim>\<open>PJ_ENOMEM\<close> exactly when \<^verbatim>\<open>pjmedia_endpt_create_pool\<close>
  returns null.
\<close>

theorem init_success_record:
  assumes "wf_state s" and "0 \<le> slot_arg" and "slot_arg < MAX_SIMS"
  shows "(fst (audio_bridge_init pf slot_arg endpt s) = PJ_SUCCESS \<longrightarrow>
            bridge (snd (audio_bridge_init pf slot_arg endpt s)) slot_arg
              = \<lparr>active = False, slot = slot_arg, med_endpt = endpt,
                 pool = create_pool_ret pf (trace s) endpt\<rparr>
          \<and> pool (bridge (snd (audio_bridge_init pf slot_arg endpt s)) slot_arg) \<noteq> NULL)
       \<and> (fst (audio_bridge_init pf slot_arg endpt s) = PJ_ENOMEM
            \<longleftrightarrow> create_pool_ret pf (trace s) endpt = NULL)"
  using in_range_nat [OF assms]
  by (simp add: init_in_range_eq [OF assms] bridge_def)

theorem init_success_record_witness:
  "wf_state initial_state \<and> (0::int) \<le> 1 \<and> 1 < MAX_SIMS
   \<and> fst (audio_bridge_init ok_platform 1 7 initial_state) = PJ_SUCCESS
   \<and> bridge (snd (audio_bridge_init ok_platform 1 7 initial_state)) 1
       = \<lparr>active = False, slot = 1, med_endpt = 7, pool = 1\<rparr>
   \<and> create_pool_ret failing_platform (trace initial_state) 7 = NULL
   \<and> fst (audio_bridge_init failing_platform 1 7 initial_state) = PJ_ENOMEM"
proof -
  have h1: "wf_state initial_state" by (rule wf_initial_state)
  have h2: "(0::int) \<le> 1" by simp
  have h3: "1 < MAX_SIMS" by (simp add: MAX_SIMS_def)
  have t: "trace initial_state = []" by (simp add: initial_state_def)
  have ok: "fst (audio_bridge_init ok_platform 1 7 initial_state) = PJ_SUCCESS"
    by (simp add: init_in_range_eq [OF h1 h2 h3] ok_platform_def)
  have p: "create_pool_ret ok_platform (trace initial_state) 7 = 1"
    by (simp add: ok_platform_def t)
  have f: "create_pool_ret failing_platform (trace initial_state) 7 = NULL"
    by (simp add: failing_platform_def)
  show ?thesis
    using h1 h3 ok p f
      init_success_record [OF h1 h2 h3, of ok_platform 7]
      init_success_record [OF h1 h2 h3, of failing_platform 7]
    by simp
qed

text \<open>
  C10. For every in-range slot, \<^verbatim>\<open>audio_bridge_init\<close> overwrites the whole record,
  whatever it held: afterwards the record is the zeroed one with the slot, the endpoint
  and the newly requested pool stored, so its active flag is false whether init
  succeeded or not. The only platform call of init is the pool request: a pool the
  record owned before is dropped from the record and never passed to
  \<^verbatim>\<open>pj_pool_release\<close>.
\<close>

theorem init_discards_prior_record:
  assumes "wf_state s" and "0 \<le> slot_arg" and "slot_arg < MAX_SIMS"
  shows "bridge (snd (audio_bridge_init pf slot_arg endpt s)) slot_arg
           = \<lparr>active = False, slot = slot_arg, med_endpt = endpt,
              pool = create_pool_ret pf (trace s) endpt\<rparr>
       \<and> trace (snd (audio_bridge_init pf slot_arg endpt s))
           = trace s @ [Create_pool endpt (create_pool_ret pf (trace s) endpt)]
       \<and> (\<forall>q. Release_pool q
              \<notin> set (drop (length (trace s)) (trace (snd (audio_bridge_init pf slot_arg endpt s)))))
       \<and> \<not> active (bridge (snd (audio_bridge_init pf slot_arg endpt s)) slot_arg)"
  using in_range_nat [OF assms]
  by (simp add: init_in_range_eq [OF assms] bridge_def)

theorem init_discards_prior_record_witness:
  "wf_state started_state \<and> (0::int) \<le> 0 \<and> 0 < MAX_SIMS
   \<and> pool (bridge started_state 0) = 9 \<and> active (bridge started_state 0)
   \<and> bridge (snd (audio_bridge_init ok_platform 0 8 started_state)) 0
       = \<lparr>active = False, slot = 0, med_endpt = 8, pool = 1\<rparr>
   \<and> trace (snd (audio_bridge_init ok_platform 0 8 started_state)) = [Create_pool 8 1]
   \<and> \<not> active (bridge (snd (audio_bridge_init failing_platform 0 8 started_state)) 0)"
proof -
  have h1: "wf_state started_state" by (rule wf_started_state)
  have h2: "(0::int) \<le> 0" by simp
  have h3: "0 < MAX_SIMS" by (simp add: MAX_SIMS_def)
  have b: "pool (bridge started_state 0) = 9 \<and> active (bridge started_state 0)"
    by (simp add: bridge_def started_state_def)
  have t: "trace started_state = []" by (simp add: started_state_def)
  have p: "create_pool_ret ok_platform [] 8 = 1"
    by (simp add: ok_platform_def)
  show ?thesis
    using h1 h3 b t p
      init_discards_prior_record [OF h1 h2 h3, of ok_platform 8]
      init_discards_prior_record [OF h1 h2 h3, of failing_platform 8]
    by simp
qed

subsection \<open>The command sequences\<close>

text \<open>
  C8. On a platform where every command succeeds, \<^verbatim>\<open>audio_bridge_start\<close> on an
  in-range inactive slot passes to \<^verbatim>\<open>system\<close> exactly the seven commands of the enable
  sequence, in order, and \<^verbatim>\<open>audio_bridge_stop\<close> on an in-range active slot exactly
  the four commands of the disable sequence, in order; each command is wrapped as
  \<^verbatim>\<open>su -c "<command>"\<close>.
\<close>

theorem command_sequences_in_order:
  assumes "\<forall>h c. system_ret pf h c = 0" and "0 \<le> slot_arg" and "slot_arg < MAX_SIMS"
  shows "(\<not> active (bridge s slot_arg) \<longrightarrow>
            trace (snd (audio_bridge_start pf slot_arg l r s))
              = trace s @ map (\<lambda>c. System (''su -c '' @ [CHR 0x22] @ c @ [CHR 0x22]))
                  [''tinymix 'Voice Rx Device Mute' 0 0 0'',
                   ''tinymix 'Voice Tx Device Mute' 0 0 0'',
                   ''tinymix 'Voice Tx Mute' 0 0 0'',
                   ''tinymix 'Voice Rx Gain' 20 20 20'',
                   ''tinymix 'HD Voice Enable' 1 1'',
                   ''service call audio 8 i32 1'',
                   ''service call audio 28 i32 2''])
       \<and> (active (bridge s slot_arg) \<longrightarrow>
            trace (audio_bridge_stop pf slot_arg s)
              = trace s @ map (\<lambda>c. System (''su -c '' @ [CHR 0x22] @ c @ [CHR 0x22]))
                  [''service call audio 28 i32 0'',
                   ''service call audio 8 i32 0'',
                   ''tinymix 'Voice Rx Device Mute' -1 -1 -1'',
                   ''tinymix 'Voice Tx Device Mute' -1 -1 -1''])"
proof -
  have en: "map (System \<circ> full_cmd_of) enable_cmds
      = map (\<lambda>c. System (''su -c '' @ [CHR 0x22] @ c @ [CHR 0x22]))
          [''tinymix 'Voice Rx Device Mute' 0 0 0'',
           ''tinymix 'Voice Tx Device Mute' 0 0 0'',
           ''tinymix 'Voice Tx Mute' 0 0 0'',
           ''tinymix 'Voice Rx Gain' 20 20 20'',
           ''tinymix 'HD Voice Enable' 1 1'',
           ''service call audio 8 i32 1'',
           ''service call audio 28 i32 2'']"
    by (simp add: enable_cmds_def full_cmd_of_short)
  have dis: "map (System \<circ> full_cmd_of) disable_cmds
      = map (\<lambda>c. System (''su -c '' @ [CHR 0x22] @ c @ [CHR 0x22]))
          [''service call audio 28 i32 0'',
           ''service call audio 8 i32 0'',
           ''tinymix 'Voice Rx Device Mute' -1 -1 -1'',
           ''tinymix 'Voice Tx Device Mute' -1 -1 -1'']"
    by (simp add: disable_cmds_def full_cmd_of_short)
  have c1: "fst (configure_sm6150_audio pf True s) = PJ_SUCCESS
          \<and> trace (snd (configure_sm6150_audio pf True s))
              = trace s @ map (System \<circ> full_cmd_of) enable_cmds"
    by (rule configure_enable_mixer_ok) (simp add: assms(1))
  have c2: "trace (snd (configure_sm6150_audio pf False s))
              = trace s @ map (System \<circ> full_cmd_of) disable_cmds"
    by (rule configure_disable_all_ok [OF assms(1)])
  have a: "trace (snd (audio_bridge_start pf slot_arg l r s))
             = trace s @ map (System \<circ> full_cmd_of) enable_cmds"
    if "\<not> active (bridge s slot_arg)"
    using c1 by (simp add: start_inactive_eq [OF assms(2,3) that])
  have b: "trace (audio_bridge_stop pf slot_arg s)
             = trace s @ map (System \<circ> full_cmd_of) disable_cmds"
    if "active (bridge s slot_arg)"
    using c2 by (simp add: stop_active_eq [OF assms(2,3) that])
  show ?thesis
    using a b by (simp only: en dis) blast
qed

theorem command_sequences_in_order_witness:
  "(\<forall>h c. system_ret ok_platform h c = 0) \<and> (0::int) \<le> 0 \<and> 0 < MAX_SIMS
   \<and> \<not> active (bridge initial_state 0)
   \<and> trace (snd (audio_bridge_start ok_platform 0 0 0 initial_state))
       = map (System \<circ> full_cmd_of)
           [''tinymix 'Voice Rx Device Mute' 0 0 0'',
            ''tinymix 'Voice Tx Device Mute' 0 0 0'',
            ''tinymix 'Voice Tx Mute' 0 0 0'',
            ''tinymix 'Voice Rx Gain' 20 20 20'',
            ''tinymix 'HD Voice Enable' 1 1'',
            ''service call audio 8 i32 1'',
            ''service call audio 28 i32 2'']
   \<and> active (bridge started_state 0)
   \<and> trace (audio_bridge_stop ok_platform 0 started_state)
       = map (System \<circ> full_cmd_of)
           [''service call audio 28 i32 0'',
            ''service call audio 8 i32 0'',
            ''tinymix 'Voice Rx Device Mute' -1 -1 -1'',
            ''tinymix 'Voice Tx Device Mute' -1 -1 -1'']"
proof -
  have h1: "\<forall>h c. system_ret ok_platform h c = 0" by (simp add: ok_platform_def)
  have h2: "(0::int) \<le> 0" by simp
  have h3: "0 < MAX_SIMS" by (simp add: MAX_SIMS_def)
  have na: "\<not> active (bridge initial_state 0)"
    by (simp add: bridge_def initial_state_def zeroed_def MAX_SIMS_def)
  have act: "active (bridge started_state 0)"
    by (simp add: bridge_def started_state_def)
  have t: "trace initial_state = []" "trace started_state = []"
    by (simp_all add: initial_state_def started_state_def)
  show ?thesis
    using h1 h3 na act t
      command_sequences_in_order [OF h1 h2 h3, of initial_state 0 0]
      command_sequences_in_order [OF h1 h2 h3, of started_state 0 0]
    by (simp add: full_cmd_of_short)
qed

text \<open>
  C3, as the code has it. On an in-range inactive slot, if one of the five
  \<^verbatim>\<open>tinymix\<close> commands of the enable sequence fails (the \<open>k\<close>-th being the first to
  fail), \<^verbatim>\<open>audio_bridge_start\<close> issues no command after it, returns
  \<^verbatim>\<open>PJ_EUNKNOWN\<close> and leaves the records as they were. If the five \<^verbatim>\<open>tinymix\<close>
  commands succeed, start issues all seven commands, marks the record active and
  returns \<^verbatim>\<open>PJ_SUCCESS\<close>, whatever the two \<^verbatim>\<open>service call\<close> commands return.
\<close>

theorem start_fails_fast_on_mixer_commands:
  assumes "wf_state s" and "0 \<le> slot_arg" and "slot_arg < MAX_SIMS"
    and "\<not> active (bridge s slot_arg)"
  shows "(k < 5
          \<and> (\<forall>j<k. system_ret pf (trace s @ map (System \<circ> full_cmd_of) (take j enable_cmds))
                      (full_cmd_of (enable_cmds ! j)) = 0)
          \<and> system_ret pf (trace s @ map (System \<circ> full_cmd_of) (take k enable_cmds))
                (full_cmd_of (enable_cmds ! k)) \<noteq> 0
          \<longrightarrow> audio_bridge_start pf slot_arg l r s
                = (PJ_EUNKNOWN,
                   s\<lparr>trace := trace s
                        @ map (System \<circ> full_cmd_of) (take (Suc k) enable_cmds)\<rparr>))
       \<and> ((\<forall>j<5. system_ret pf (trace s @ map (System \<circ> full_cmd_of) (take j enable_cmds))
                      (full_cmd_of (enable_cmds ! j)) = 0)
          \<longrightarrow> fst (audio_bridge_start pf slot_arg l r s) = PJ_SUCCESS
            \<and> trace (snd (audio_bridge_start pf slot_arg l r s))
                = trace s @ map (System \<circ> full_cmd_of) enable_cmds
            \<and> active (bridge (snd (audio_bridge_start pf slot_arg l r s)) slot_arg))"
proof -
  note eq = start_inactive_eq [OF assms(2-4)]
  have n: "nat slot_arg < length (bridges s)"
    by (rule in_range_nat [OF assms(1-3)])
  have a: "audio_bridge_start pf slot_arg l r s
             = (PJ_EUNKNOWN,
                s\<lparr>trace := trace s @ map (System \<circ> full_cmd_of) (take (Suc k) enable_cmds)\<rparr>)"
    if "k < 5"
      and "\<forall>j<k. system_ret pf (trace s @ map (System \<circ> full_cmd_of) (take j enable_cmds))
                    (full_cmd_of (enable_cmds ! j)) = 0"
      and "system_ret pf (trace s @ map (System \<circ> full_cmd_of) (take k enable_cmds))
             (full_cmd_of (enable_cmds ! k)) \<noteq> 0"
    by (simp add: eq configure_enable_fails_at [OF that])
  have b: "fst (audio_bridge_start pf slot_arg l r s) = PJ_SUCCESS
         \<and> trace (snd (audio_bridge_start pf slot_arg l r s))
             = trace s @ map (System \<circ> full_cmd_of) enable_cmds
         \<and> active (bridge (snd (audio_bridge_start pf slot_arg l r s)) slot_arg)"
    if "\<forall>j<5. system_ret pf (trace s @ map (System \<circ> full_cmd_of) (take j enable_cmds))
                  (full_cmd_of (enable_cmds ! j)) = 0"
    using configure_enable_mixer_ok [OF that] n by (simp add: eq bridge_def)
  show ?thesis using a b by blast
qed

theorem start_fails_fast_on_mixer_commands_witness:
  "wf_state initial_state \<and> (0::int) \<le> 0 \<and> 0 < MAX_SIMS \<and> \<not> active (bridge initial_state 0)
   \<and> system_ret gain_fails_platform
        (trace initial_state @ map (System \<circ> full_cmd_of) (take 3 enable_cmds))
        (full_cmd_of (enable_cmds ! 3)) \<noteq> 0
   \<and> audio_bridge_start gain_fails_platform 0 0 0 initial_state
       = (PJ_EUNKNOWN,
          initial_state\<lparr>trace := trace initial_state
             @ map (System \<circ> full_cmd_of) (take (Suc 3) enable_cmds)\<rparr>)
   \<and> fst (audio_bridge_start speaker_fails_platform 0 0 0 initial_state) = PJ_SUCCESS
   \<and> trace (snd (audio_bridge_start speaker_fails_platform 0 0 0 initial_state))
       = trace initial_state @ map (System \<circ> full_cmd_of) enable_cmds
   \<and> active (bridge (snd (audio_bridge_start speaker_fails_platform 0 0 0 initial_state)) 0)"
proof -
  have h1: "wf_state initial_state" by (rule wf_initial_state)
  have h2: "(0::int) \<le> 0" by simp
  have h3: "0 < MAX_SIMS" by (simp add: MAX_SIMS_def)
  have h4: "\<not> active (bridge initial_state 0)"
    by (simp add: bridge_def initial_state_def zeroed_def MAX_SIMS_def)
  have k: "(3::nat) < 5" by simp
  have before: "\<forall>j<3. system_ret gain_fails_platform
        (trace initial_state @ map (System \<circ> full_cmd_of) (take j enable_cmds))
        (full_cmd_of (enable_cmds ! j)) = 0"
    by (simp add: all_less_3 gain_fails_platform_def enable_cmds_def full_cmd_of_eq_iff)
  have at: "system_ret gain_fails_platform
        (trace initial_state @ map (System \<circ> full_cmd_of) (take 3 enable_cmds))
        (full_cmd_of (enable_cmds ! 3)) \<noteq> 0"
    by (simp add: gain_fails_platform_def enable_cmds_def)
  have mixer: "\<forall>j<5. system_ret speaker_fails_platform
        (trace initial_state @ map (System \<circ> full_cmd_of) (take j enable_cmds))
        (full_cmd_of (enable_cmds ! j)) = 0"
    by (simp add: all_less_5 speaker_fails_platform_def enable_cmds_def full_cmd_of_eq_iff)
  show ?thesis
    using h1 h3 h4 k before at mixer
      start_fails_fast_on_mixer_commands [OF h1 h2 h3 h4, of 3 gain_fails_platform 0 0]
      start_fails_fast_on_mixer_commands [OF h1 h2 h3 h4, of 0 speaker_fails_platform 0 0]
    by simp
qed

text \<open>
  C3, as stated, fails: on a platform where the sixth command of the enable sequence
  (\<^verbatim>\<open>service call audio 8 i32 1\<close>) exits with a non-zero status, \<^verbatim>\<open>audio_bridge_start\<close>
  goes on to issue the seventh command and returns \<^verbatim>\<open>PJ_SUCCESS\<close>.
\<close>

theorem start_fail_fast_counterexample:
  "system_ret speaker_fails_platform
      (map (System \<circ> full_cmd_of) (take 5 enable_cmds))
      (full_cmd_of ''service call audio 8 i32 1'') \<noteq> 0
   \<and> fst (audio_bridge_start speaker_fails_platform 0 0 0 initial_state) = PJ_SUCCESS
   \<and> trace (snd (audio_bridge_start speaker_fails_platform 0 0 0 initial_state))
       = map (System \<circ> full_cmd_of)
           [''tinymix 'Voice Rx Device Mute' 0 0 0'',
            ''tinymix 'Voice Tx Device Mute' 0 0 0'',
            ''tinymix 'Voice Tx Mute' 0 0 0'',
            ''tinymix 'Voice Rx Gain' 20 20 20'',
            ''tinymix 'HD Voice Enable' 1 1'',
            ''service call audio 8 i32 1'',
            ''service call audio 28 i32 2'']"
proof -
  have h2: "(0::int) \<le> 0" by simp
  have h3: "0 < MAX_SIMS" by (simp add: MAX_SIMS_def)
  have na: "\<not> active (bridge initial_state 0)"
    by (simp add: bridge_def initial_state_def zeroed_def MAX_SIMS_def)
  have t: "trace initial_state = []" by (simp add: initial_state_def)
  have mixer: "\<forall>j<5. system_ret speaker_fails_platform
        (trace initial_state @ map (System \<circ> full_cmd_of) (take j enable_cmds))
        (full_cmd_of (enable_cmds ! j)) = 0"
    by (simp add: all_less_5 speaker_fails_platform_def enable_cmds_def full_cmd_of_eq_iff)
  have c: "fst (configure_sm6150_audio speaker_fails_platform True initial_state) = PJ_SUCCESS
         \<and> trace (snd (configure_sm6150_audio speaker_fails_platform True initial_state))
             = trace initial_state @ map (System \<circ> full_cmd_of) enable_cmds"
    by (rule configure_enable_mixer_ok [OF mixer])
  have f: "system_ret speaker_fails_platform
      (map (System \<circ> full_cmd_of) (take 5 enable_cmds))
      (full_cmd_of ''service call audio 8 i32 1'') \<noteq> 0"
    by (simp add: speaker_fails_platform_def)
  have e: "map (System \<circ> full_cmd_of) enable_cmds
       = map (System \<circ> full_cmd_of)
           [''tinymix 'Voice Rx Device Mute' 0 0 0'',
            ''tinymix 'Voice Tx Device Mute' 0 0 0'',
            ''tinymix 'Voice Tx Mute' 0 0 0'',
            ''tinymix 'Voice Rx Gain' 20 20 20'',
            ''tinymix 'HD Voice Enable' 1 1'',
            ''service call audio 8 i32 1'',
            ''service call audio 28 i32 2'']"
    by (simp only: enable_cmds_def)
  have st: "fst (audio_bridge_start speaker_fails_platform 0 0 0 initial_state) = PJ_SUCCESS
          \<and> trace (snd (audio_bridge_start speaker_fails_platform 0 0 0 initial_state))
              = map (System \<circ> full_cmd_of) enable_cmds"
    using c t by (simp add: start_inactive_eq [OF h2 h3 na])
  show ?thesis
    using f st by (simp only: e) simp
qed

end
